theory Spec2Isabelle
  imports Complex_Main
begin

section \<open>Strings and paths used by the argument resolver\<close>

text \<open>
  The script \<open>tools/visualize_csv.py\<close> works on Python strings and on
  \<open>pathlib.Path\<close> values of the POSIX flavour.  Only the operations the script
  calls are modelled: \<open>str.split\<close>, \<open>str.join\<close>, \<open>str.endswith\<close>,
  \<open>str.lstrip('.')\<close>, \<open>str.lower\<close>, and of \<open>pathlib\<close> the constructor, \<open>str\<close>,
  \<open>name\<close>, \<open>suffix\<close> and \<open>with_suffix\<close>.
\<close>

datatype py_error = KeyError string | ValueError | TypeError

text \<open>\<open>s.split(c)\<close> for a one-character separator.\<close>

fun split_on :: "char \<Rightarrow> string \<Rightarrow> string list" where
  "split_on c [] = [[]]"
| "split_on c (x # xs) =
     (if x = c then [] # split_on c xs
      else (case split_on c xs of
              [] \<Rightarrow> [[x]]
            | w # ws \<Rightarrow> (x # w) # ws))"

text \<open>\<open>sep.join(xs)\<close>.\<close>

fun join :: "string \<Rightarrow> string list \<Rightarrow> string" where
  "join sep [] = []"
| "join sep [x] = x"
| "join sep (x # y # ys) = x @ sep @ join sep (y # ys)"

definition endswith :: "string \<Rightarrow> string \<Rightarrow> bool" where
  "endswith s suf \<longleftrightarrow>
     length suf \<le> length s \<and> drop (length s - length suf) s = suf"

definition lstrip :: "char \<Rightarrow> string \<Rightarrow> string" where
  "lstrip c s = dropWhile (\<lambda>x. x = c) s"

text \<open>
  \<open>str.lower\<close> on the letters \<open>A\<close> to \<open>Z\<close>.  The result is only compared with the
  five lower-case ASCII names of the recognised formats.
\<close>

definition lower_char :: "char \<Rightarrow> char" where
  "lower_char c =
     (let n = (of_char c :: nat)
      in if 65 \<le> n \<and> n \<le> 90 then char_of (n + 32) else c)"

definition lower :: "string \<Rightarrow> string" where
  "lower s = map lower_char s"

text \<open>\<open>s.rfind(c)\<close>: the index of the last occurrence, \<open>None\<close> for Python's \<open>-1\<close>.\<close>

fun rfind :: "char \<Rightarrow> string \<Rightarrow> nat option" where
  "rfind c [] = None"
| "rfind c (x # xs) =
     (case rfind c xs of
        Some i \<Rightarrow> Some (Suc i)
      | None \<Rightarrow> (if x = c then Some 0 else None))"

text \<open>
  A parsed POSIX path: the root (\<open>''''\<close>, \<open>''/''\<close> or \<open>''//''\<close>) and the components
  after it.  The constructor drops empty components and \<open>.\<close> components, as
  \<open>pathlib\<close> does when it parses a string.
\<close>

record pure_path =
  root :: string
  parts :: "string list"

definition splitroot :: "string \<Rightarrow> string" where
  "splitroot p =
     (if take 1 p \<noteq> ''/'' then ''''
      else if take 1 (drop 1 p) \<noteq> ''/'' \<or> take 1 (drop 2 p) = ''/'' then ''/''
      else ''//'')"

definition Path :: "string \<Rightarrow> pure_path" where
  "Path p = \<lparr> root = splitroot p,
              parts = filter (\<lambda>x. x \<noteq> '''' \<and> x \<noteq> ''.'') (split_on CHR ''/'' p) \<rparr>"

definition str_path :: "pure_path \<Rightarrow> string" where
  "str_path P =
     (let s = root P @ join ''/'' (parts P) in if s = '''' then ''.'' else s)"

definition name :: "pure_path \<Rightarrow> string" where
  "name P = (if parts P = [] then '''' else last (parts P))"

text \<open>
  \<open>PurePath.suffix\<close>: the part of the name from its last dot, when that dot is
  neither the first nor the last character of the name.
\<close>

definition suffix_of_name :: "string \<Rightarrow> string" where
  "suffix_of_name n =
     (case rfind CHR ''.'' n of
        None \<Rightarrow> ''''
      | Some i \<Rightarrow> (if 0 < i \<and> i < length n - 1 then drop i n else ''''))"

definition suffix :: "pure_path \<Rightarrow> string" where
  "suffix P = suffix_of_name (name P)"

text \<open>
  \<open>PurePath.with_suffix(suf)\<close> for a valid \<open>suf\<close> (the script passes \<open>'.png'\<close>):
  a path with an empty name raises \<open>ValueError\<close>.
\<close>

definition with_suffix :: "pure_path \<Rightarrow> string \<Rightarrow> py_error + pure_path" where
  "with_suffix P suf =
     (let n = name P in
      if n = '''' then Inl ValueError
      else Inr (P\<lparr> parts := butlast (parts P) @
                 [take (length n - length (suffix P)) n @ suf] \<rparr>))"

section \<open>Argument resolution\<close>

text \<open>
  The namespace \<open>argparse\<close> returns: \<open>output\<close> and \<open>format\<close> are \<open>None\<close> when the
  flag is absent, and \<open>format\<close>, when present, is one of the five choices.
\<close>

record args =
  input :: string
  "output" :: "string option"
  dpi :: int
  no_show :: bool
  format :: "string option"

definition format_choices :: "string list" where
  "format_choices = [''png'', ''jpg'', ''jpeg'', ''pdf'', ''svg'']"

text \<open>
  How a run ends: \<open>sys.exit(n)\<close> (\<open>parser.error\<close> exits with status 2, the end of
  the script with status 0), or an exception nobody catches.
\<close>

datatype outcome = Exit int | Uncaught py_error

text \<open>Lines 57 and 58: the default output path.\<close>

definition default_output :: "args \<Rightarrow> py_error + args" where
  "default_output a =
     (case output a of
        Some p \<Rightarrow> Inr a
      | None \<Rightarrow>
          (case with_suffix (Path (input a)) ''.png'' of
             Inl e \<Rightarrow> Inl e
           | Inr P \<Rightarrow> Inr (a\<lparr> output := Some (str_path P) \<rparr>)))"

text \<open>
  Lines 61 to 69: the format inferred from the extension of the output path.
  The function is called after \<open>default_output\<close>, so \<open>output\<close> is set.
\<close>

definition infer_format :: "string \<Rightarrow> args \<Rightarrow> args" where
  "infer_format out a =
     (case format a of
        Some f \<Rightarrow> a
      | None \<Rightarrow>
          (let ext = lower (lstrip CHR ''.'' (suffix (Path out))) in
           if ext \<in> set [''jpg'', ''jpeg'', ''png'', ''pdf'', ''svg'']
           then a\<lparr> format := Some (if ext = ''jpg'' then ''jpeg'' else ext) \<rparr>
           else (let a1 = a\<lparr> format := Some ''png'' \<rparr> in
                 if \<not> endswith out ''.png''
                 then a1\<lparr> output := Some (out @ ''.png'') \<rparr>
                 else a1)))"

text \<open>
  \<open>parse_arguments\<close> after \<open>parser.parse_args()\<close>.  The argument \<open>exists\<close> is
  the answer of \<open>Path(args.input).exists()\<close>; \<open>parser.error\<close> exits with
  status 2.  \<open>Path(args.output)\<close> on \<open>None\<close> raises \<open>TypeError\<close>.
\<close>

definition parse_arguments :: "bool \<Rightarrow> args \<Rightarrow> outcome + args" where
  "parse_arguments exists a =
     (if \<not> exists then Inl (Exit 2)
      else (case default_output a of
              Inl e \<Rightarrow> Inl (Uncaught e)
            | Inr a1 \<Rightarrow>
                (case output a1 of
                   None \<Rightarrow> Inl (Uncaught TypeError)
                 | Some out \<Rightarrow> Inr (infer_format out a1))))"

section \<open>The loaded table\<close>

text \<open>
  The table \<open>pd.read_csv\<close> returns: its length and its columns in header order.
  A column has dtype \<open>float64\<close> (\<open>Numeric\<close>), \<open>int64\<close> or \<open>object\<close> (strings);
  missing cells are outside this model.  The numbers of a \<open>float64\<close> column are
  exact rationals: the rounding of floating-point arithmetic and of the format
  specifiers is outside the model as well.  The values of an \<open>int64\<close> column
  lie in the 64-bit range, and sums and absolute values of them wrap around as
  they do in numpy.  In a \<open>DataFrame\<close> every column has the length of the frame,
  which \<open>wf_df\<close> states.
\<close>

datatype cell = Num rat | Str string

datatype column = Numeric "rat list" | Int64 "int list" | Object "string list"

record dataframe =
  nrows :: nat
  columns :: "(string \<times> column) list"

fun cells :: "column \<Rightarrow> cell list" where
  "cells (Numeric xs) = map Num xs"
| "cells (Int64 xs) = map (\<lambda>i. Num (of_int i)) xs"
| "cells (Object ss) = map Str ss"

definition wf_df :: "dataframe \<Rightarrow> bool" where
  "wf_df d \<longleftrightarrow>
     distinct (map fst (columns d)) \<and>
     list_all (\<lambda>c. length (cells (snd c)) = nrows d) (columns d)"

text \<open>\<open>df[c]\<close>: a column that is not in the table raises \<open>KeyError\<close>.\<close>

definition getitem :: "dataframe \<Rightarrow> string \<Rightarrow> py_error + column" where
  "getitem d c =
     (case map_of (columns d) c of
        None \<Rightarrow> Inl (KeyError c)
      | Some col \<Rightarrow> Inr col)"

definition and_then :: "'e + 'a \<Rightarrow> ('a \<Rightarrow> 'e + 'b) \<Rightarrow> 'e + 'b" where
  "and_then m f = (case m of Inl e \<Rightarrow> Inl e | Inr x \<Rightarrow> f x)"

text \<open>\<open>df[mask]\<close>: the rows where the mask holds, as a new table.\<close>

definition select :: "bool list \<Rightarrow> 'a list \<Rightarrow> 'a list" where
  "select m xs = map snd (filter fst (zip m xs))"

fun select_column :: "bool list \<Rightarrow> column \<Rightarrow> column" where
  "select_column m (Numeric xs) = Numeric (select m xs)"
| "select_column m (Int64 xs) = Int64 (select m xs)"
| "select_column m (Object ss) = Object (select m ss)"

definition select_rows :: "bool list \<Rightarrow> dataframe \<Rightarrow> dataframe" where
  "select_rows m d =
     \<lparr> nrows = length (filter id m),
       columns = map (\<lambda>c. (fst c, select_column m (snd c))) (columns d) \<rparr>"

text \<open>\<open>series == v\<close>, elementwise.\<close>

definition eq_mask :: "column \<Rightarrow> cell \<Rightarrow> bool list" where
  "eq_mask col v = map (\<lambda>c. c = v) (cells col)"

text \<open>
  \<open>Series.unique()\<close>: the values in order of appearance, found with a table of
  the values seen so far.
\<close>

fun unique_from :: "'a list \<Rightarrow> 'a list \<Rightarrow> 'a list" where
  "unique_from seen [] = []"
| "unique_from seen (x # xs) =
     (if x \<in> set seen then unique_from seen xs
      else x # unique_from (x # seen) xs)"

definition unique :: "'a list \<Rightarrow> 'a list" where
  "unique xs = unique_from [] xs"

text \<open>
  \<open>Series.max()\<close>, \<open>min()\<close> and \<open>mean()\<close> of the numbers of a column; \<open>None\<close> is the
  \<open>nan\<close> pandas returns on an empty column.
\<close>

fun series_max :: "rat list \<Rightarrow> rat option" where
  "series_max [] = None"
| "series_max (x # xs) = Some (fold max xs x)"

fun series_min :: "rat list \<Rightarrow> rat option" where
  "series_min [] = None"
| "series_min (x # xs) = Some (fold min xs x)"

definition series_mean :: "rat list \<Rightarrow> rat option" where
  "series_mean xs = (if xs = [] then None else Some (sum_list xs / of_nat (length xs)))"

text \<open>The value of a 64-bit signed integer operation: the result modulo \<open>2^64\<close>.\<close>

definition int64_wrap :: "int \<Rightarrow> int" where
  "int64_wrap i = (i + 2 ^ 63) mod 2 ^ 64 - 2 ^ 63"

text \<open>The numbers of a column, when it has a numeric dtype.\<close>

fun numbers :: "column \<Rightarrow> rat list option" where
  "numbers (Numeric xs) = Some xs"
| "numbers (Int64 xs) = Some (map of_int xs)"
| "numbers (Object ss) = None"

text \<open>\<open>Series.abs()\<close>: on \<open>int64\<close> the absolute value of the least integer wraps.\<close>

fun abs_numbers :: "column \<Rightarrow> rat list option" where
  "abs_numbers (Numeric xs) = Some (map abs xs)"
| "abs_numbers (Int64 xs) = Some (map (\<lambda>i. of_int (int64_wrap (abs i))) xs)"
| "abs_numbers (Object ss) = None"

text \<open>
  \<open>Series.sum()\<close>: the sum of an \<open>int64\<close> column is an \<open>int64\<close> and wraps around;
  the sum of strings is their concatenation.
\<close>

fun series_sum :: "column \<Rightarrow> cell" where
  "series_sum (Numeric xs) = Num (sum_list xs)"
| "series_sum (Int64 xs) = Num (of_int (int64_wrap (sum_list xs)))"
| "series_sum (Object ss) = Str (concat ss)"

text \<open>
  \<open>Series.value_counts()\<close>: each value with the number of its occurrences, by
  decreasing count.  Values with equal counts are listed here in the order of
  their first occurrence; in pandas their order is that of its sorting routine.
\<close>

definition value_counts :: "cell list \<Rightarrow> (cell \<times> nat) list" where
  "value_counts xs =
     sort_key (\<lambda>p. - int (snd p))
       (map (\<lambda>v. (v, length (filter (\<lambda>x. x = v) xs))) (unique xs))"

section \<open>The process\<close>

text \<open>
  What the script draws.  The drawing calls of matplotlib are taken to succeed:
  the only failure of the chart block in this model is a \<open>KeyError\<close> of a column
  access.
\<close>

datatype artist =
    Plot string column column
  | Axhline string rat
  | Scatter string column "cell list" cell string
  | Axvline string cell

text \<open>
  One constructor for each \<open>print\<close> whose text has a formatted number, carrying
  the values that are formatted; \<open>Print\<close> carries the text of the others.
  \<^item> \<open>Loaded n\<close>: line 88, \<^verbatim>\<open>Loaded {len(df)} data points\<close>;
  \<^item> \<open>Saved_successfully f d\<close>: line 170, with \<open>args.format\<close> and \<open>args.dpi\<close>;
  \<^item> \<open>Total_iterations\<close>, \<open>Duration\<close>, \<open>Update_interval\<close>, \<open>Lux_range\<close> and
    \<open>Brightness_range\<close>: lines 186 to 190;
  \<^item> \<open>Zone_changes\<close>: line 192; \<open>Value_counts\<close>: line 194;
  \<^item> \<open>Average_error\<close> and \<open>Max_error\<close>: lines 195 and 196.
\<close>

datatype line =
    Print string
  | Loaded nat
  | Saved_successfully "string option" int
  | Total_iterations nat
  | Duration "rat option"
  | Update_interval "rat option"
  | Lux_range "rat option" "rat option"
  | Brightness_range "rat option" "rat option"
  | Zone_changes cell
  | Value_counts "(cell \<times> nat) list"
  | Average_error "rat option"
  | Max_error "rat option"

text \<open>
  The environment of one run: the answers of the calls that leave the process.
  \<open>read_csv\<close> and \<open>savefig\<close> raise (with a message) or return.  So does the
  \<open>print\<close> of line 170, \<open>print_saved\<close>: its text starts with a check mark, which
  a standard output that is not Unicode cannot encode.  The other prints are
  taken to succeed.
\<close>

record env =
  input_exists :: bool
  read_csv :: "string + dataframe"
  savefig :: "string option"
  print_saved :: "string option"

text \<open>
  The state of the running script after the table is loaded, and a step of it:
  the script goes on, or the process ends with what it has printed.
\<close>

record state =
  df :: dataframe
  figure :: "artist list"
  stdout :: "line list"
  saved :: "(string option \<times> string option \<times> int) list"
  shown :: bool

datatype step = Next state | Halt "line list" outcome

definition then_step :: "step \<Rightarrow> (state \<Rightarrow> step) \<Rightarrow> step" where
  "then_step r f = (case r of Next s \<Rightarrow> f s | Halt out oc \<Rightarrow> Halt out oc)"

text \<open>Lines 77 to 88.\<close>

definition load :: "env \<Rightarrow> args \<Rightarrow> step" where
  "load e a =
     (let out = [Print (''Loading data from: '' @ input a)] in
      case read_csv e of
        Inl msg \<Rightarrow> Halt (out @ [Print (''Error loading CSV: '' @ msg)]) (Exit 1)
      | Inr d \<Rightarrow>
          if nrows d = 0 then Halt (out @ [Print ''Error: CSV file is empty'']) (Exit 1)
          else Next \<lparr> df = d, figure = [], stdout = out @ [Loaded (nrows d)],
                      saved = [], shown = False \<rparr>)"

text \<open>Lines 91 to 164: the four panels.\<close>

definition step_colors :: "(string \<times> string) list" where
  "step_colors =
     [(''large_up'', ''red''), (''large_down'', ''orange''), (''medium_up'', ''yellow''),
      (''medium_down'', ''lightyellow''), (''small_up'', ''lightgreen''),
      (''small_down'', ''lightblue''), (''none'', ''gray''), (''manual'', ''purple'')]"

definition zone_colors :: "(string \<times> string) list" where
  "zone_colors =
     [(''night'', ''darkblue''), (''indoor'', ''yellow''), (''outdoor'', ''orange''),
      (''simple'', ''gray''), (''manual'', ''purple'')]"

text \<open>\<open>colors.get(v, 'black')\<close>.\<close>

fun color_of :: "(string \<times> string) list \<Rightarrow> cell \<Rightarrow> string" where
  "color_of colors (Str s) = (case map_of colors s of Some c \<Rightarrow> c | None \<Rightarrow> ''black'')"
| "color_of colors (Num x) = ''black''"

definition plot :: "string \<Rightarrow> dataframe \<Rightarrow> string \<Rightarrow> string \<Rightarrow> py_error + artist" where
  "plot ax d xname yname =
     and_then (getitem d xname) (\<lambda>x.
     and_then (getitem d yname) (\<lambda>y.
     Inr (Plot ax x y)))"

text \<open>The loops of lines 134 to 137 and 148 to 151, over the values of a column.\<close>

fun scatter_each ::
  "string \<Rightarrow> (string \<times> string) list \<Rightarrow> dataframe \<Rightarrow> column \<Rightarrow> cell list
     \<Rightarrow> py_error + artist list" where
  "scatter_each ax colors d col [] = Inr []"
| "scatter_each ax colors d col (v # vs) =
     (let m = eq_mask col v in
      and_then (getitem (select_rows m d) ''timestamp'') (\<lambda>x.
      and_then (scatter_each ax colors d col vs) (\<lambda>rest.
      Inr (Scatter ax x (replicate (length (filter id m)) v) v (color_of colors v) # rest))))"

text \<open>Lines 154 to 156: a vertical line at each row whose \<open>zone_changed\<close> is 1.\<close>

definition mark_zone_changes :: "dataframe \<Rightarrow> py_error + artist list" where
  "mark_zone_changes d =
     and_then (getitem d ''zone_changed'') (\<lambda>zc.
     let zone_changes = select_rows (eq_mask zc (Num 1)) d in
     if nrows zone_changes = 0 then Inr []
     else and_then (getitem zone_changes ''timestamp'') (\<lambda>ts.
          Inr (map (Axvline ''ax4'') (cells ts))))"

definition chart :: "dataframe \<Rightarrow> py_error + artist list" where
  "chart d =
     and_then (plot ''ax1'' d ''timestamp'' ''lux'') (\<lambda>p1.
     and_then (plot ''ax1_twin'' d ''timestamp'' ''target_brightness'') (\<lambda>p2.
     and_then (plot ''ax1_twin'' d ''timestamp'' ''current_brightness'') (\<lambda>p3.
     and_then (plot ''ax2'' d ''timestamp'' ''error'') (\<lambda>p4.
     and_then (plot ''ax2_twin'' d ''timestamp'' ''step_size'') (\<lambda>p5.
     and_then (getitem d ''step_category'') (\<lambda>sc.
     and_then (scatter_each ''ax3'' step_colors d sc (unique (cells sc))) (\<lambda>s3.
     and_then (getitem d ''zone'') (\<lambda>z.
     and_then (scatter_each ''ax4'' zone_colors d z (unique (cells z))) (\<lambda>s4.
     and_then (mark_zone_changes d) (\<lambda>v4.
     Inr ([p1, p2, p3, p4, Axhline ''ax2'' 0, p5] @ s3 @ s4 @ v4)))))))))))"

definition compose_chart :: "state \<Rightarrow> step" where
  "compose_chart s =
     (case chart (df s) of
        Inl err \<Rightarrow> Halt (stdout s) (Uncaught err)
      | Inr arts \<Rightarrow> Next (s\<lparr> figure := arts \<rparr>))"

text \<open>
  Lines 167 to 173.  An f-string prints \<open>None\<close> as \<open>None\<close>.  The \<open>try\<close> block holds
  \<open>savefig\<close> and the \<open>print\<close> of line 170: when either raises, the \<open>except\<close>
  branch prints the error and exits with status 1.
\<close>

definition str_opt :: "string option \<Rightarrow> string" where
  "str_opt x = (case x of None \<Rightarrow> ''None'' | Some s \<Rightarrow> s)"

definition save_figure :: "env \<Rightarrow> args \<Rightarrow> state \<Rightarrow> step" where
  "save_figure e a s =
     (let out = stdout s @ [Print (''Saving visualization to: '' @ str_opt (output a))] in
      case savefig e of
        Some msg \<Rightarrow> Halt (out @ [Print (''Error saving plot: '' @ msg)]) (Exit 1)
      | None \<Rightarrow>
          (case print_saved e of
             Some msg \<Rightarrow> Halt (out @ [Print (''Error saving plot: '' @ msg)]) (Exit 1)
           | None \<Rightarrow>
               Next (s\<lparr> stdout := out @ [Saved_successfully (format a) (dpi a)],
                         saved := saved s @ [(output a, format a, dpi a)] \<rparr>)))"

text \<open>Lines 176 to 180.\<close>

definition display :: "args \<Rightarrow> state \<Rightarrow> step" where
  "display a s =
     (if \<not> no_show a
      then Next (s\<lparr> stdout := stdout s @ [Print ''Displaying plot (close window to continue)...''],
                     shown := True \<rparr>)
      else Next (s\<lparr> stdout := stdout s @ [Print ''Skipping interactive display (--no-show)''] \<rparr>))"

text \<open>
  Lines 183 to 196: one function of the table for each \<open>print\<close>.  A column of
  strings where numbers are expected, or of numbers where strings are, makes
  the f-string raise where Python does: \<open>max\<close> and \<open>min\<close> of strings are strings,
  which the format \<open>f\<close> refuses with \<open>ValueError\<close>; a string divided by a number,
  \<open>abs\<close> of a string and \<open>join\<close> on numbers raise \<open>TypeError\<close>; \<open>sum\<close> of strings
  concatenates them.  The table has at least one row when the script gets here.
\<close>

definition fmt_max :: "dataframe \<Rightarrow> string \<Rightarrow> py_error + rat option" where
  "fmt_max d c =
     and_then (getitem d c) (\<lambda>col.
     case numbers col of Some xs \<Rightarrow> Inr (series_max xs) | None \<Rightarrow> Inl ValueError)"

definition fmt_min :: "dataframe \<Rightarrow> string \<Rightarrow> py_error + rat option" where
  "fmt_min d c =
     and_then (getitem d c) (\<lambda>col.
     case numbers col of Some xs \<Rightarrow> Inr (series_min xs) | None \<Rightarrow> Inl ValueError)"

definition line_duration :: "dataframe \<Rightarrow> py_error + line" where
  "line_duration d = and_then (fmt_max d ''timestamp'') (\<lambda>m. Inr (Duration m))"

definition line_interval :: "dataframe \<Rightarrow> py_error + line" where
  "line_interval d =
     and_then (getitem d ''timestamp'') (\<lambda>col.
     case numbers col of
       Some xs \<Rightarrow>
         Inr (Update_interval (map_option (\<lambda>m. m / of_nat (nrows d)) (series_max xs)))
     | None \<Rightarrow> Inl TypeError)"

definition line_lux :: "dataframe \<Rightarrow> py_error + line" where
  "line_lux d =
     and_then (fmt_min d ''lux'') (\<lambda>lo.
     and_then (fmt_max d ''lux'') (\<lambda>hi.
     Inr (Lux_range lo hi)))"

definition line_brightness :: "dataframe \<Rightarrow> py_error + line" where
  "line_brightness d =
     and_then (fmt_min d ''current_brightness'') (\<lambda>lo.
     and_then (fmt_max d ''current_brightness'') (\<lambda>hi.
     Inr (Brightness_range lo hi)))"

definition line_zones :: "dataframe \<Rightarrow> py_error + line" where
  "line_zones d =
     and_then (getitem d ''zone'') (\<lambda>col.
     case col of
       Object zs \<Rightarrow> Inr (Print (''Zones visited: '' @ join '', '' (unique zs)))
     | _ \<Rightarrow> Inl TypeError)"

definition line_zone_changes :: "dataframe \<Rightarrow> py_error + line" where
  "line_zone_changes d =
     and_then (getitem d ''zone_changed'') (\<lambda>col.
     Inr (Zone_changes (series_sum col)))"

definition line_value_counts :: "dataframe \<Rightarrow> py_error + line" where
  "line_value_counts d =
     and_then (getitem d ''step_category'') (\<lambda>col.
     Inr (Value_counts (value_counts (cells col))))"

definition line_average_error :: "dataframe \<Rightarrow> py_error + line" where
  "line_average_error d =
     and_then (getitem d ''error'') (\<lambda>col.
     case abs_numbers col of
       Some xs \<Rightarrow> Inr (Average_error (series_mean xs))
     | None \<Rightarrow> Inl TypeError)"

definition line_max_error :: "dataframe \<Rightarrow> py_error + line" where
  "line_max_error d =
     and_then (getitem d ''error'') (\<lambda>col.
     case abs_numbers col of
       Some xs \<Rightarrow> Inr (Max_error (series_max xs))
     | None \<Rightarrow> Inl TypeError)"

definition summary_prints :: "(dataframe \<Rightarrow> py_error + line) list" where
  "summary_prints =
     [\<lambda>d. Inr (Print (CHR 0x0A # replicate 60 CHR ''='')),
      \<lambda>d. Inr (Print ''SUMMARY STATISTICS''),
      \<lambda>d. Inr (Print (replicate 60 CHR ''='')),
      \<lambda>d. Inr (Total_iterations (nrows d)),
      line_duration,
      line_interval,
      line_lux,
      line_brightness,
      line_zones,
      line_zone_changes,
      \<lambda>d. Inr (Print (CHR 0x0A # ''Step category distribution:'')),
      line_value_counts,
      line_average_error,
      line_max_error]"

text \<open>
  The prints run in order; an f-string that raises ends the process before its
  line is printed.
\<close>

fun print_all :: "(dataframe \<Rightarrow> py_error + line) list \<Rightarrow> state \<Rightarrow> step" where
  "print_all [] s = Next s"
| "print_all (f # fs) s =
     (case f (df s) of
        Inl err \<Rightarrow> Halt (stdout s) (Uncaught err)
      | Inr l \<Rightarrow> print_all fs (s\<lparr> stdout := stdout s @ [l] \<rparr>))"

definition print_summary :: "state \<Rightarrow> step" where
  "print_summary s = print_all summary_prints s"

text \<open>The script: a run that reaches its last line ends with status 0.\<close>

definition main :: "env \<Rightarrow> args \<Rightarrow> step" where
  "main e a0 =
     (case parse_arguments (input_exists e) a0 of
        Inl oc \<Rightarrow> Halt [] oc
      | Inr a \<Rightarrow>
          then_step (then_step (then_step (then_step
            (load e a) compose_chart) (save_figure e a)) (display a)) print_summary)"

fun status :: "step \<Rightarrow> outcome" where
  "status (Next s) = Exit 0"
| "status (Halt out oc) = oc"

fun printed :: "step \<Rightarrow> line list" where
  "printed (Next s) = stdout s"
| "printed (Halt out oc) = out"

section \<open>Notions of the specification\<close>

text \<open>
  "Replacing the extension": the path without its suffix, followed by the new
  extension.
\<close>

definition replace_extension :: "string \<Rightarrow> string \<Rightarrow> string" where
  "replace_extension p new = take (length p - length (suffix (Path p))) p @ new"

text \<open>
  What \<open>pathlib\<close> keeps of a parsed path: one of the three roots, and components
  that are not empty, not \<open>.\<close> and free of the separator.
\<close>

definition wf_path :: "pure_path \<Rightarrow> bool" where
  "wf_path P \<longleftrightarrow>
     root P \<in> set ['''', ''/'', ''//''] \<and>
     (\<forall>w \<in> set (parts P). w \<noteq> '''' \<and> w \<noteq> ''.'' \<and> CHR ''/'' \<notin> set w)"

text \<open>
  The columns of a log record and their dtypes: seven numeric columns
  (\<open>float64\<close> or \<open>int64\<close>) and two columns of names.  The list is in the order in which the chart block first
  reads the columns.
\<close>

definition required_columns :: "string list" where
  "required_columns =
     [''timestamp'', ''lux'', ''target_brightness'', ''current_brightness'', ''error'',
      ''step_size'', ''step_category'', ''zone'', ''zone_changed'']"

definition numeric :: "dataframe \<Rightarrow> string \<Rightarrow> rat list" where
  "numeric d c =
     (case getitem d c of
        Inr col \<Rightarrow> (case numbers col of Some xs \<Rightarrow> xs | None \<Rightarrow> [])
      | Inl e \<Rightarrow> [])"

definition strings :: "dataframe \<Rightarrow> string \<Rightarrow> string list" where
  "strings d c = (case getitem d c of Inr (Object ss) \<Rightarrow> ss | _ \<Rightarrow> [])"

definition is_numeric :: "dataframe \<Rightarrow> string \<Rightarrow> bool" where
  "is_numeric d c =
     (case getitem d c of
        Inr col \<Rightarrow> (case numbers col of Some xs \<Rightarrow> True | None \<Rightarrow> False)
      | Inl e \<Rightarrow> False)"

definition is_object :: "dataframe \<Rightarrow> string \<Rightarrow> bool" where
  "is_object d c = (case getitem d c of Inr (Object ss) \<Rightarrow> True | _ \<Rightarrow> False)"

text \<open>The absolute values and the sum of a numeric column of the table.\<close>

definition abs_values :: "dataframe \<Rightarrow> string \<Rightarrow> rat list" where
  "abs_values d c =
     (case getitem d c of
        Inr col \<Rightarrow> (case abs_numbers col of Some xs \<Rightarrow> xs | None \<Rightarrow> [])
      | Inl e \<Rightarrow> [])"

definition column_sum :: "dataframe \<Rightarrow> string \<Rightarrow> cell" where
  "column_sum d c = (case getitem d c of Inr col \<Rightarrow> series_sum col | Inl e \<Rightarrow> Num 0)"

definition conforms :: "dataframe \<Rightarrow> bool" where
  "conforms d \<longleftrightarrow>
     list_all (is_numeric d)
       [''timestamp'', ''lux'', ''target_brightness'', ''current_brightness'', ''error'',
        ''step_size'', ''zone_changed'']
     \<and> list_all (is_object d) [''step_category'', ''zone'']"

text \<open>"Count where \<open>zone_changed == 1\<close>".\<close>

definition count_flagged :: "rat list \<Rightarrow> nat" where
  "count_flagged xs = length (filter (\<lambda>x. x = 1) xs)"

text \<open>
  "Encounter order": the values at the positions where a value occurs for the
  first time.
\<close>

definition first_occurrences :: "'a list \<Rightarrow> 'a list" where
  "first_occurrences xs =
     map (\<lambda>i. xs ! i) (filter (\<lambda>i. xs ! i \<notin> set (take i xs)) [0..<length xs])"

text \<open>
  The report of the summary block for a table that conforms: the row count, the
  duration, the mean sampling interval, the ranges of lux and brightness, the
  zones visited, the zone changes, the step categories and the two errors.
\<close>

definition summary_report :: "dataframe \<Rightarrow> line list" where
  "summary_report d =
     [Print (CHR 0x0A # replicate 60 CHR ''=''),
      Print ''SUMMARY STATISTICS'',
      Print (replicate 60 CHR ''=''),
      Total_iterations (nrows d),
      Duration (series_max (numeric d ''timestamp'')),
      Update_interval
        (map_option (\<lambda>m. m / of_nat (nrows d)) (series_max (numeric d ''timestamp''))),
      Lux_range (series_min (numeric d ''lux'')) (series_max (numeric d ''lux'')),
      Brightness_range (series_min (numeric d ''current_brightness''))
        (series_max (numeric d ''current_brightness'')),
      Print (''Zones visited: '' @ join '', '' (unique (strings d ''zone''))),
      Zone_changes (column_sum d ''zone_changed''),
      Print (CHR 0x0A # ''Step category distribution:''),
      Value_counts (value_counts (map Str (strings d ''step_category''))),
      Average_error (series_mean (abs_values d ''error'')),
      Max_error (series_max (abs_values d ''error''))]"

section \<open>A sample run\<close>

text \<open>A log of two records, and the command line \<open>--input=log.csv --no-show\<close>.\<close>

definition sample_table :: dataframe where
  "sample_table =
     \<lparr> nrows = 2,
       columns =
         [(''timestamp'', Numeric [0, 2]),
          (''lux'', Numeric [10, 300]),
          (''target_brightness'', Numeric [40, 80]),
          (''current_brightness'', Numeric [40, 60]),
          (''error'', Numeric [0, 20]),
          (''step_size'', Numeric [0, 5]),
          (''step_category'', Object [''none'', ''large_up'']),
          (''zone'', Object [''indoor'', ''outdoor'']),
          (''zone_changed'', Int64 [0, 1])] \<rparr>"

definition sample_args :: args where
  "sample_args =
     \<lparr> input = ''log.csv'', output = None, dpi = 150, no_show = True, format = None \<rparr>"

definition sample_env :: env where
  "sample_env =
     \<lparr> input_exists = True, read_csv = Inr sample_table, savefig = None,
       print_saved = None \<rparr>"

section \<open>Properties of strings and paths\<close>

lemma split_on_not_Nil: "split_on c s \<noteq> []"
  by (induction s) (auto split: list.splits)

lemma split_on_no_sep: "w \<in> set (split_on c s) \<Longrightarrow> c \<notin> set w"
  by (induction s arbitrary: w) (auto split: if_splits list.splits)

lemma split_on_append_sep: "c \<notin> set w \<Longrightarrow> split_on c (w @ c # s) = w # split_on c s"
  by (induction w) auto

lemma split_on_id: "c \<notin> set w \<Longrightarrow> split_on c w = [w]"
  by (induction w) auto

lemma split_on_join:
  "xs \<noteq> [] \<Longrightarrow> \<forall>w \<in> set xs. c \<notin> set w \<Longrightarrow> split_on c (join [c] xs) = xs"
proof (induction "[c]" xs rule: join.induct)
  case 1
  then show ?case by simp
next
  case (2 x)
  then show ?case by (simp add: split_on_id)
next
  case (3 x y ys)
  then show ?case by (simp add: split_on_append_sep)
qed

lemma join_snoc_append: "join sep (xs @ [a @ b]) = join sep (xs @ [a]) @ b"
proof (induction xs)
  case Nil
  then show ?case by simp
next
  case (Cons x xs)
  then show ?case by (cases xs) auto
qed

lemma join_hd:
  "xs \<noteq> [] \<Longrightarrow> hd xs \<noteq> [] \<Longrightarrow> join sep xs \<noteq> [] \<and> hd (join sep xs) = hd (hd xs)"
  by (induction sep xs rule: join.induct) auto

lemma join_last_nonempty: "xs \<noteq> [] \<Longrightarrow> last xs \<noteq> [] \<Longrightarrow> join sep xs \<noteq> []"
  by (induction sep xs rule: join.induct) auto

lemma splitroot_cases: "splitroot p \<in> set ['''', ''/'', ''//'']"
  by (simp add: splitroot_def)

lemma wf_path_Path: "wf_path (Path p)"
  using split_on_no_sep [of _ "CHR ''/''" p]
  by (auto simp: wf_path_def Path_def splitroot_def)

lemma Path_root_join:
  assumes "wf_path P" "parts P \<noteq> []"
  shows "Path (root P @ join ''/'' (parts P)) = P"
proof -
  let ?xs = "parts P"
  let ?j = "join ''/'' ?xs"
  have comp: "\<forall>w \<in> set ?xs. CHR ''/'' \<notin> set w" "\<forall>w \<in> set ?xs. w \<noteq> '''' \<and> w \<noteq> ''.''"
    using assms(1) by (auto simp: wf_path_def)
  have hdne: "hd ?xs \<noteq> []" "CHR ''/'' \<notin> set (hd ?xs)"
    using comp assms(2) by (cases ?xs; simp)+
  have j: "?j \<noteq> []" "hd ?j \<noteq> CHR ''/''"
    using join_hd [OF assms(2) hdne(1), of "''/''"] hdne
    by (auto simp: hd_in_set dest: hd_in_set)
  obtain h t where ht: "?j = h # t" "h \<noteq> CHR ''/''"
    using j by (cases ?j) auto
  have sp: "split_on CHR ''/'' ?j = ?xs"
    using split_on_join [OF assms(2) comp(1)] by simp
  have flt: "filter (\<lambda>x. x \<noteq> '''' \<and> x \<noteq> ''.'') ?xs = ?xs"
    using comp(2) by (simp add: filter_id_conv)
  have rt: "root P = '''' \<or> root P = ''/'' \<or> root P = ''//''"
    using assms(1) by (auto simp: wf_path_def)
  then have "root (Path (root P @ ?j)) = root P \<and> parts (Path (root P @ ?j)) = ?xs"
  proof (elim disjE)
    assume r: "root P = ''''"
    show ?thesis using ht sp flt by (simp add: r Path_def splitroot_def)
  next
    assume r: "root P = ''/''"
    have "split_on CHR ''/'' (''/'' @ ?j) = [] # ?xs" using sp by simp
    then show ?thesis using ht flt by (simp add: r Path_def splitroot_def)
  next
    assume r: "root P = ''//''"
    have "split_on CHR ''/'' (''//'' @ ?j) = [] # [] # ?xs" using sp by simp
    then show ?thesis using ht flt by (simp add: r Path_def splitroot_def)
  qed
  then show ?thesis by simp
qed

lemma rfind_append: "c \<notin> set ys \<Longrightarrow> rfind c (xs @ c # ys) = Some (length xs)"
proof (induction xs)
  case Nil
  have "rfind c ys = None" using Nil by (induction ys) (auto split: option.splits)
  then show ?case by simp
next
  case (Cons x xs)
  then show ?case by simp
qed

lemma rfind_less: "rfind c s = Some i \<Longrightarrow> i < length s"
  by (induction s arbitrary: i) (auto split: option.splits if_splits)

lemma suffix_of_name_split:
  "take (length n - length (suffix_of_name n)) n @ suffix_of_name n = n"
  by (auto simp: suffix_of_name_def split: option.splits dest: rfind_less)

lemma stem_not_Nil:
  "n \<noteq> [] \<Longrightarrow> take (length n - length (suffix_of_name n)) n \<noteq> []"
  by (auto simp: suffix_of_name_def split: option.splits dest: rfind_less)

lemma suffix_of_name_png: "s \<noteq> [] \<Longrightarrow> suffix_of_name (s @ ''.png'') = ''.png''"
  using rfind_append [of "CHR ''.''" "''png''" s]
  by (simp add: suffix_of_name_def)

lemma Path_str_path:
  assumes "wf_path P" "parts P \<noteq> []"
  shows "str_path P = root P @ join ''/'' (parts P)" and "Path (str_path P) = P"
proof -
  have "last (parts P) \<noteq> []"
    using assms by (auto simp: wf_path_def)
  then have "join ''/'' (parts P) \<noteq> []"
    using assms(2) by (rule join_last_nonempty [rotated])
  then show "str_path P = root P @ join ''/'' (parts P)"
    by (simp add: str_path_def Let_def)
  then show "Path (str_path P) = P"
    using Path_root_join [OF assms] by simp
qed

lemma with_suffix_png:
  assumes "name (Path p) \<noteq> ''''"
  shows "\<exists>P'. with_suffix (Path p) ''.png'' = Inr P' \<and> wf_path P' \<and> parts P' \<noteq> [] \<and>
           suffix P' = ''.png'' \<and>
           str_path P' = replace_extension (str_path (Path p)) ''.png''"
proof -
  let ?P = "Path p"
  let ?n = "name ?P"
  let ?stem = "take (length ?n - length (suffix ?P)) ?n"
  let ?P' = "?P\<lparr> parts := butlast (parts ?P) @ [?stem @ ''.png''] \<rparr>"
  have wf: "wf_path ?P" by (rule wf_path_Path)
  have ne: "parts ?P \<noteq> []" using assms by (auto simp: name_def)
  have n: "?n = last (parts ?P)" using ne by (simp add: name_def)
  have nin: "?n \<in> set (parts ?P)" using ne n by simp
  have nslash: "CHR ''/'' \<notin> set ?n" using wf nin by (auto simp: wf_path_def)
  have stem: "?stem \<noteq> []" using stem_not_Nil [of ?n] assms by (simp add: suffix_def)
  have split: "?stem @ suffix ?P = ?n" using suffix_of_name_split [of ?n] by (simp add: suffix_def)
  have ws: "with_suffix ?P ''.png'' = Inr ?P'" using assms by (simp add: with_suffix_def Let_def)
  have "set ?stem \<subseteq> set ?n" by (rule set_take_subset)
  then have stslash: "CHR ''/'' \<notin> set ?stem" using nslash by auto
  have "set (butlast (parts ?P)) \<subseteq> set (parts ?P)" by (auto dest: in_set_butlastD)
  then have wf': "wf_path ?P'"
    using wf stem stslash by (auto simp: wf_path_def)
  have ne': "parts ?P' \<noteq> []" by simp
  have "name ?P' = ?stem @ ''.png''" by (simp add: name_def)
  then have suf': "suffix ?P' = ''.png''"
    using suffix_of_name_png [OF stem] by (simp add: suffix_def)
  have q: "str_path ?P = root ?P @ join ''/'' (parts ?P)" "Path (str_path ?P) = ?P"
    using Path_str_path [OF wf ne] by simp_all
  have "parts ?P = butlast (parts ?P) @ [?stem @ suffix ?P]"
    using ne n split by simp
  then have "join ''/'' (parts ?P) = join ''/'' (butlast (parts ?P) @ [?stem]) @ suffix ?P"
    using join_snoc_append [of "''/''" "butlast (parts ?P)" ?stem "suffix ?P"] by simp
  then have "replace_extension (str_path ?P) ''.png''
      = root ?P @ join ''/'' (butlast (parts ?P) @ [?stem]) @ ''.png''"
    using q by (simp add: replace_extension_def)
  moreover have "str_path ?P' = root ?P @ join ''/'' (butlast (parts ?P) @ [?stem]) @ ''.png''"
    using Path_str_path(1) [OF wf' ne']
      join_snoc_append [of "''/''" "butlast (parts ?P)" ?stem "''.png''"] by simp
  ultimately show ?thesis using ws wf' ne' suf' by simp
qed

lemma default_output_None:
  assumes "output a = None" "name (Path (input a)) \<noteq> ''''"
  shows "default_output a =
           Inr (a\<lparr> output := Some (replace_extension (str_path (Path (input a))) ''.png'') \<rparr>)"
    and "suffix (Path (replace_extension (str_path (Path (input a))) ''.png'')) = ''.png''"
proof -
  obtain P' where P': "with_suffix (Path (input a)) ''.png'' = Inr P'" "wf_path P'"
      "parts P' \<noteq> []" "suffix P' = ''.png''"
      "str_path P' = replace_extension (str_path (Path (input a))) ''.png''"
    using with_suffix_png [OF assms(2)] by blast
  show "default_output a =
           Inr (a\<lparr> output := Some (replace_extension (str_path (Path (input a))) ''.png'') \<rparr>)"
    using assms(1) P'(1,5) by (simp add: default_output_def)
  show "suffix (Path (replace_extension (str_path (Path (input a))) ''.png'')) = ''.png''"
    using Path_str_path(2) [OF P'(2,3)] P'(4,5) by simp
qed

lemma ext_png: "lower (lstrip CHR ''.'' ''.png'') = ''png''"
  by (simp add: lower_def lower_char_def lstrip_def)

lemma endswith_append: "endswith (s @ t) t"
  by (simp add: endswith_def)

section \<open>Properties of the argument resolver\<close>

text \<open>
  C2, as the code has it.  The input path exists and \<open>--format\<close> is absent.
  Without \<open>--output\<close>, and for an input path whose last component is not empty,
  the output path is the input path as \<open>pathlib\<close> prints it with its extension
  replaced by \<open>.png\<close>, and the format is \<open>png\<close>.  With \<open>--output\<close>, the format
  is the lower-cased extension of the output path, \<open>jpg\<close> becoming \<open>jpeg\<close>, when
  that extension is one of the five; otherwise the format is \<open>png\<close> and \<open>.png\<close>
  is appended to the output path unless the path ends with it.
\<close>

theorem parse_arguments_resolution:
  assumes "format a = None"
  shows "(output a = None \<and> name (Path (input a)) \<noteq> '''' \<longrightarrow>
            parse_arguments True a =
              Inr (a\<lparr> output := Some (replace_extension (str_path (Path (input a))) ''.png''),
                       format := Some ''png'' \<rparr>))
       \<and> (\<forall>out. output a = Some out \<longrightarrow>
            (let ext = lower (lstrip CHR ''.'' (suffix (Path out))) in
             parse_arguments True a =
               Inr (if ext \<in> set [''jpg'', ''jpeg'', ''png'', ''pdf'', ''svg'']
                    then a\<lparr> format := Some (if ext = ''jpg'' then ''jpeg'' else ext) \<rparr>
                    else a\<lparr> output := Some (if endswith out ''.png'' then out else out @ ''.png''),
                             format := Some ''png'' \<rparr>)))"
proof (intro conjI impI allI)
  assume h: "output a = None \<and> name (Path (input a)) \<noteq> ''''"
  let ?out = "replace_extension (str_path (Path (input a))) ''.png''"
  have d: "default_output a = Inr (a\<lparr> output := Some ?out \<rparr>)"
    and s: "suffix (Path ?out) = ''.png''"
    using default_output_None [of a] h by simp_all
  have "infer_format ?out (a\<lparr> output := Some ?out \<rparr>) =
          a\<lparr> output := Some ?out, format := Some ''png'' \<rparr>"
    using assms s by (simp add: infer_format_def ext_png Let_def)
  then show "parse_arguments True a = Inr (a\<lparr> output := Some ?out, format := Some ''png'' \<rparr>)"
    using d by (simp add: parse_arguments_def)
next
  fix out
  assume o: "output a = Some out"
  have d: "default_output a = Inr a" using o by (simp add: default_output_def)
  show "let ext = lower (lstrip CHR ''.'' (suffix (Path out))) in
        parse_arguments True a =
          Inr (if ext \<in> set [''jpg'', ''jpeg'', ''png'', ''pdf'', ''svg'']
               then a\<lparr> format := Some (if ext = ''jpg'' then ''jpeg'' else ext) \<rparr>
               else a\<lparr> output := Some (if endswith out ''.png'' then out else out @ ''.png''),
                        format := Some ''png'' \<rparr>)"
    using assms o d
    by (simp add: parse_arguments_def infer_format_def Let_def)
qed

text \<open>The three examples of the specification.\<close>

theorem parse_arguments_resolution_witness:
  "parse_arguments True
     \<lparr> input = ''a.csv'', output = None, dpi = 150, no_show = False, format = None \<rparr>
   = Inr \<lparr> input = ''a.csv'', output = Some ''a.png'', dpi = 150, no_show = False,
           format = Some ''png'' \<rparr>
   \<and> parse_arguments True
     \<lparr> input = ''a.csv'', output = Some ''x.jpg'', dpi = 150, no_show = False, format = None \<rparr>
   = Inr \<lparr> input = ''a.csv'', output = Some ''x.jpg'', dpi = 150, no_show = False,
           format = Some ''jpeg'' \<rparr>
   \<and> parse_arguments True
     \<lparr> input = ''a.csv'', output = Some ''x.xyz'', dpi = 150, no_show = False, format = None \<rparr>
   = Inr \<lparr> input = ''a.csv'', output = Some ''x.xyz.png'', dpi = 150, no_show = False,
           format = Some ''png'' \<rparr>"
proof -
  have n: "name (Path ''a.csv'') \<noteq> ''''"
    by (simp add: name_def Path_def)
  have r: "replace_extension (str_path (Path ''a.csv'')) ''.png'' = ''a.png''"
    by (simp add: replace_extension_def str_path_def Path_def splitroot_def suffix_def
        suffix_of_name_def name_def)
  have e1: "lower (lstrip CHR ''.'' (suffix (Path ''x.jpg''))) = ''jpg''"
    by (simp add: lower_def lower_char_def lstrip_def suffix_def suffix_of_name_def name_def
        Path_def)
  have e2: "lower (lstrip CHR ''.'' (suffix (Path ''x.xyz''))) = ''xyz''"
    by (simp add: lower_def lower_char_def lstrip_def suffix_def suffix_of_name_def name_def
        Path_def)
  have e3: "\<not> endswith ''x.xyz'' ''.png''"
    by (simp add: endswith_def)
  show ?thesis
    using parse_arguments_resolution
        [of "\<lparr> input = ''a.csv'', output = None, dpi = 150, no_show = False, format = None \<rparr>"]
      parse_arguments_resolution
        [of "\<lparr> input = ''a.csv'', output = Some ''x.jpg'', dpi = 150, no_show = False,
               format = None \<rparr>"]
      parse_arguments_resolution
        [of "\<lparr> input = ''a.csv'', output = Some ''x.xyz'', dpi = 150, no_show = False,
               format = None \<rparr>"]
      n r e1 e2 e3
    by (simp add: Let_def)
qed

text \<open>
  C2 as stated speaks of every input path.  The root directory exists and has no
  last component: \<open>with_suffix\<close> raises and no output path is resolved.
\<close>

theorem parse_arguments_root_counterexample:
  "parse_arguments True
     \<lparr> input = ''/'', output = None, dpi = 150, no_show = False, format = None \<rparr>
   = Inl (Uncaught ValueError)"
  by (simp add: parse_arguments_def default_output_def with_suffix_def name_def Path_def)

text \<open>
  C9: with an explicit \<open>--format\<close> the resolver returns the output path it was
  given, whatever its extension, and the namespace unchanged; without \<open>--output\<close>
  the output path is the one derived from the input, with nothing appended.
\<close>

theorem explicit_format_keeps_output:
  assumes "format a = Some f"
  shows "(\<forall>p. output a = Some p \<longrightarrow> parse_arguments True a = Inr a)
       \<and> (output a = None \<and> name (Path (input a)) \<noteq> '''' \<longrightarrow>
            parse_arguments True a =
              Inr (a\<lparr> output := Some (replace_extension (str_path (Path (input a))) ''.png'') \<rparr>))"
proof (intro conjI impI allI)
  fix p
  assume "output a = Some p"
  then show "parse_arguments True a = Inr a"
    using assms by (simp add: parse_arguments_def default_output_def infer_format_def)
next
  assume h: "output a = None \<and> name (Path (input a)) \<noteq> ''''"
  show "parse_arguments True a =
          Inr (a\<lparr> output := Some (replace_extension (str_path (Path (input a))) ''.png'') \<rparr>)"
    using default_output_None(1) [of a] h assms
    by (simp add: parse_arguments_def infer_format_def)
qed

theorem explicit_format_keeps_output_witness:
  "parse_arguments True
     \<lparr> input = ''a.csv'', output = Some ''x.xyz'', dpi = 150, no_show = False,
       format = Some ''pdf'' \<rparr>
   = Inr \<lparr> input = ''a.csv'', output = Some ''x.xyz'', dpi = 150, no_show = False,
           format = Some ''pdf'' \<rparr>
   \<and> parse_arguments True
     \<lparr> input = ''log'', output = None, dpi = 150, no_show = False, format = Some ''svg'' \<rparr>
   = Inr \<lparr> input = ''log'', output = Some ''log.png'', dpi = 150, no_show = False,
           format = Some ''svg'' \<rparr>"
proof -
  have n: "name (Path ''log'') \<noteq> ''''"
    by (simp add: name_def Path_def)
  have r: "replace_extension (str_path (Path ''log'')) ''.png'' = ''log.png''"
    by (simp add: replace_extension_def str_path_def Path_def splitroot_def suffix_def
        suffix_of_name_def name_def)
  show ?thesis
    using explicit_format_keeps_output
        [of "\<lparr> input = ''a.csv'', output = Some ''x.xyz'', dpi = 150, no_show = False,
               format = Some ''pdf'' \<rparr>" "''pdf''"]
      explicit_format_keeps_output
        [of "\<lparr> input = ''log'', output = None, dpi = 150, no_show = False,
               format = Some ''svg'' \<rparr>" "''svg''"]
      n r
    by simp
qed

section \<open>Properties of the table operations and of the steps\<close>

lemma and_then_Inr [simp]: "and_then (Inr x) f = f x"
  by (simp add: and_then_def)

lemma and_then_Inl [simp]: "and_then (Inl e) f = Inl e"
  by (simp add: and_then_def)

lemma then_step_Next [simp]: "then_step (Next s) f = f s"
  by (simp add: then_step_def)

lemma then_step_Halt [simp]: "then_step (Halt out oc) f = Halt out oc"
  by (simp add: then_step_def)

lemma map_of_map_snd:
  "map_of (map (\<lambda>c. (fst c, f (snd c))) xs) k = map_option f (map_of xs k)"
  by (induction xs) auto

lemma getitem_select_rows:
  "getitem (select_rows m d) c =
     (case getitem d c of Inl e \<Rightarrow> Inl e | Inr col \<Rightarrow> Inr (select_column m col))"
  by (simp add: getitem_def select_rows_def map_of_map_snd split: option.splits)

lemma scatter_each_Inr:
  assumes "getitem d ''timestamp'' = Inr ts"
  shows "\<exists>arts. scatter_each ax colors d col vs = Inr arts"
  by (induction vs) (auto simp: getitem_select_rows assms Let_def)

lemma mark_zone_changes_Inr:
  assumes "getitem d ''timestamp'' = Inr ts" "getitem d ''zone_changed'' = Inr zc"
  shows "\<exists>arts. mark_zone_changes d = Inr arts"
  by (simp add: mark_zone_changes_def assms getitem_select_rows Let_def)

lemma mark_zone_changes_missing:
  assumes "getitem d ''zone_changed'' = Inl err"
  shows "mark_zone_changes d = Inl err"
  by (simp add: mark_zone_changes_def assms)

lemma getitem_cases:
  "getitem d c = Inl (KeyError c) \<and> map_of (columns d) c = None
   \<or> (\<exists>col. getitem d c = Inr col \<and> map_of (columns d) c = Some col)"
  by (cases "map_of (columns d) c") (simp_all add: getitem_def)

lemma and_then_not_isl: "\<not> isl m \<Longrightarrow> and_then m f = f (projr m)"
  by (cases m) simp_all

lemma getitem_present: "map_of (columns d) c = Some col \<Longrightarrow> getitem d c = Inr col"
  by (simp add: getitem_def)

lemma getitem_missing: "map_of (columns d) c = None \<Longrightarrow> getitem d c = Inl (KeyError c)"
  by (simp add: getitem_def)

lemma scatter_each_not_isl:
  "map_of (columns d) ''timestamp'' = Some ts \<Longrightarrow> \<not> isl (scatter_each ax colors d col vs)"
  using scatter_each_Inr [of d ts ax colors col vs] by (auto simp: getitem_present)

lemma chart_missing:
  assumes "find (\<lambda>c. map_of (columns d) c = None) required_columns = Some c"
  shows "chart d = Inl (KeyError c)"
  using assms unfolding required_columns_def chart_def plot_def
  by (auto simp: getitem_present getitem_missing mark_zone_changes_missing
        and_then_not_isl scatter_each_not_isl split: if_splits)

lemma print_all_ok:
  "map (\<lambda>f. f (df s)) fs = map Inr ls \<Longrightarrow>
   print_all fs s = Next (s\<lparr> stdout := stdout s @ ls \<rparr>)"
proof (induction fs arbitrary: s ls)
  case Nil
  then show ?case by simp
next
  case (Cons f fs)
  then obtain l ls' where ls: "ls = l # ls'" "f (df s) = Inr l"
      "map (\<lambda>f. f (df s)) fs = map Inr ls'"
    by (cases ls) auto
  have "print_all fs (s\<lparr> stdout := stdout s @ [l] \<rparr>)
        = Next (s\<lparr> stdout := stdout s @ [l] \<rparr>\<lparr> stdout := (stdout s @ [l]) @ ls' \<rparr>)"
    using Cons.IH [of "s\<lparr> stdout := stdout s @ [l] \<rparr>" ls'] ls(3) by simp
  then show ?case using ls by simp
qed

lemma print_all_df:
  "print_all fs s = Next s' \<Longrightarrow> df s' = df s"
proof (induction fs arbitrary: s)
  case Nil
  then show ?case by simp
next
  case (Cons f fs)
  then show ?case by (cases "f (df s)") (auto dest: Cons.IH)
qed

lemma print_all_df_only:
  assumes "df s1 = df s2"
  shows "\<exists>ls. (print_all fs s1 = Next (s1\<lparr> stdout := stdout s1 @ ls \<rparr>) \<and>
               print_all fs s2 = Next (s2\<lparr> stdout := stdout s2 @ ls \<rparr>))
            \<or> (\<exists>err. print_all fs s1 = Halt (stdout s1 @ ls) (Uncaught err) \<and>
                      print_all fs s2 = Halt (stdout s2 @ ls) (Uncaught err))"
  using assms
proof (induction fs arbitrary: s1 s2)
  case Nil
  have "print_all [] s1 = Next (s1\<lparr> stdout := stdout s1 @ [] \<rparr>)"
       "print_all [] s2 = Next (s2\<lparr> stdout := stdout s2 @ [] \<rparr>)"
    by simp_all
  then show ?case by blast
next
  case (Cons f fs)
  show ?case
  proof (cases "f (df s2)")
    case (Inl err)
    then have "print_all (f # fs) s1 = Halt (stdout s1 @ []) (Uncaught err)"
              "print_all (f # fs) s2 = Halt (stdout s2 @ []) (Uncaught err)"
      using Cons.prems by simp_all
    then show ?thesis by blast
  next
    case (Inr l)
    let ?t1 = "s1\<lparr> stdout := stdout s1 @ [l] \<rparr>"
    let ?t2 = "s2\<lparr> stdout := stdout s2 @ [l] \<rparr>"
    have step: "print_all (f # fs) s1 = print_all fs ?t1" "print_all (f # fs) s2 = print_all fs ?t2"
      using Inr Cons.prems by simp_all
    have "df ?t1 = df ?t2" using Cons.prems by simp
    from Cons.IH [OF this] obtain ls where
      "(print_all fs ?t1 = Next (?t1\<lparr> stdout := stdout ?t1 @ ls \<rparr>) \<and>
        print_all fs ?t2 = Next (?t2\<lparr> stdout := stdout ?t2 @ ls \<rparr>))
       \<or> (\<exists>err. print_all fs ?t1 = Halt (stdout ?t1 @ ls) (Uncaught err) \<and>
                 print_all fs ?t2 = Halt (stdout ?t2 @ ls) (Uncaught err))"
      by blast
    then have "(print_all (f # fs) s1 = Next (s1\<lparr> stdout := stdout s1 @ (l # ls) \<rparr>) \<and>
        print_all (f # fs) s2 = Next (s2\<lparr> stdout := stdout s2 @ (l # ls) \<rparr>))
       \<or> (\<exists>err. print_all (f # fs) s1 = Halt (stdout s1 @ (l # ls)) (Uncaught err) \<and>
                 print_all (f # fs) s2 = Halt (stdout s2 @ (l # ls)) (Uncaught err))"
      using step by simp
    then show ?thesis by blast
  qed
qed

lemma conforms_numeric:
  "is_numeric d c \<Longrightarrow> \<exists>col. getitem d c = Inr col \<and> numbers col = Some (numeric d c)"
  by (auto simp: is_numeric_def numeric_def split: sum.splits option.splits)

lemma length_numbers: "numbers col = Some xs \<Longrightarrow> length xs = length (cells col)"
  by (cases col) auto

lemma abs_numbers_Some: "numbers col = Some xs \<Longrightarrow> \<exists>ys. abs_numbers col = Some ys"
  by (cases col) simp_all

lemma numeric_producers:
  assumes "is_numeric d c"
  shows "fmt_max d c = Inr (series_max (numeric d c))"
    and "fmt_min d c = Inr (series_min (numeric d c))"
    and "and_then (getitem d c) (\<lambda>col. case numbers col of
            Some xs \<Rightarrow> Inr (f xs) | None \<Rightarrow> Inl TypeError) = Inr (f (numeric d c))"
    and "and_then (getitem d c) (\<lambda>col. case abs_numbers col of
            Some xs \<Rightarrow> Inr (g xs) | None \<Rightarrow> Inl TypeError) = Inr (g (abs_values d c))"
    and "and_then (getitem d c) (\<lambda>col. Inr (h (series_sum col))) = Inr (h (column_sum d c))"
proof -
  obtain col where col: "getitem d c = Inr col" "numbers col = Some (numeric d c)"
    using conforms_numeric [OF assms] by blast
  obtain ys where ys: "abs_numbers col = Some ys"
    using abs_numbers_Some [OF col(2)] by blast
  show "fmt_max d c = Inr (series_max (numeric d c))"
    and "fmt_min d c = Inr (series_min (numeric d c))"
    by (simp_all add: fmt_max_def fmt_min_def col)
  show "and_then (getitem d c) (\<lambda>col. case numbers col of
            Some xs \<Rightarrow> Inr (f xs) | None \<Rightarrow> Inl TypeError) = Inr (f (numeric d c))"
    by (simp add: col)
  show "and_then (getitem d c) (\<lambda>col. case abs_numbers col of
            Some xs \<Rightarrow> Inr (g xs) | None \<Rightarrow> Inl TypeError) = Inr (g (abs_values d c))"
    by (simp add: col ys abs_values_def)
  show "and_then (getitem d c) (\<lambda>col. Inr (h (series_sum col))) = Inr (h (column_sum d c))"
    by (simp add: col column_sum_def)
qed

lemma conforms_object:
  "is_object d c \<Longrightarrow> getitem d c = Inr (Object (strings d c))"
  by (auto simp: is_object_def strings_def split: sum.splits column.splits)

lemma print_summary_conforms:
  assumes "conforms (df s)"
  shows "print_summary s = Next (s\<lparr> stdout := stdout s @ summary_report (df s) \<rparr>)"
proof -
  let ?d = "df s"
  have n: "is_numeric ?d ''timestamp''" "is_numeric ?d ''lux''"
      "is_numeric ?d ''current_brightness''" "is_numeric ?d ''error''"
      "is_numeric ?d ''zone_changed''"
    using assms by (simp_all add: conforms_def)
  have o: "getitem ?d ''zone'' = Inr (Object (strings ?d ''zone''))"
      "getitem ?d ''step_category'' = Inr (Object (strings ?d ''step_category''))"
    using assms by (simp_all add: conforms_def conforms_object)
  have "map (\<lambda>f. f ?d) summary_prints = map Inr (summary_report ?d)"
    by (simp add: summary_prints_def summary_report_def line_duration_def line_interval_def
        line_lux_def line_brightness_def line_zones_def line_zone_changes_def
        line_value_counts_def line_average_error_def line_max_error_def
        numeric_producers [OF n(1)] numeric_producers [OF n(2)] numeric_producers [OF n(3)]
        numeric_producers [OF n(4)] numeric_producers [OF n(5)] o)
  then show ?thesis
    unfolding print_summary_def by (rule print_all_ok)
qed

lemma unique_from_index:
  "unique_from seen xs =
     map (\<lambda>i. xs ! i) (filter (\<lambda>i. xs ! i \<notin> set seen \<union> set (take i xs)) [0..<length xs])"
proof (induction xs arbitrary: seen)
  case Nil
  then show ?case by simp
next
  case (Cons x xs)
  have "[0..<Suc (length xs)] = 0 # [Suc 0..<Suc (length xs)]"
    by (rule upt_conv_Cons) simp
  then have upt: "[0..<length (x # xs)] = 0 # map Suc [0..<length xs]"
    by (simp only: map_Suc_upt list.size) simp
  show ?case
  proof (cases "x \<in> set seen")
    case True
    then have eq: "(xs ! i \<notin> set seen \<and> xs ! i \<noteq> x \<and> xs ! i \<notin> set (take i xs))
        = (xs ! i \<notin> set seen \<and> xs ! i \<notin> set (take i xs))" for i
      by auto
    show ?thesis
      using True Cons.IH [of seen]
      by (simp only: upt) (simp add: filter_map comp_def eq)
  next
    case False
    have eq: "(xs ! i \<notin> set seen \<and> xs ! i \<noteq> x \<and> xs ! i \<notin> set (take i xs))
        = (xs ! i \<noteq> x \<and> xs ! i \<notin> set seen \<and> xs ! i \<notin> set (take i xs))" for i
      by auto
    show ?thesis
      using False Cons.IH [of "x # seen"]
      by (simp only: upt) (simp add: filter_map comp_def eq)
  qed
qed

lemma unique_first_occurrences: "unique xs = first_occurrences xs"
  by (simp add: unique_def first_occurrences_def unique_from_index)

lemma set_unique_from: "set (unique_from seen xs) = set xs - set seen"
  by (induction xs arbitrary: seen) auto

lemma distinct_unique_from: "distinct (unique_from seen xs)"
  by (induction xs arbitrary: seen) (auto simp: set_unique_from)

lemma series_max_Max: "xs \<noteq> [] \<Longrightarrow> series_max xs = Some (Max (set xs))"
  by (cases xs) (simp_all add: Max.set_eq_fold [symmetric])

lemma sum_list_flags:
  "\<forall>x \<in> set xs. x = 0 \<or> x = 1 \<Longrightarrow> sum_list xs = of_nat (count_flagged xs)"
  by (induction xs) (auto simp: count_flagged_def)

lemma sum_list_int_flags:
  "\<forall>i \<in> set ks. i = 0 \<or> i = 1 \<Longrightarrow>
   sum_list ks = int (count_flagged (map of_int ks))"
  by (induction ks) (auto simp: count_flagged_def)

lemma count_flagged_le: "count_flagged xs \<le> length xs"
  by (simp add: count_flagged_def)

lemma int64_wrap_id: "0 \<le> i \<Longrightarrow> i < 2 ^ 63 \<Longrightarrow> int64_wrap i = i"
  by (simp add: int64_wrap_def)

lemma column_sum_flags:
  assumes "is_numeric d c"
    and "\<forall>x \<in> set (numeric d c). x = 0 \<or> x = 1"
    and "length (numeric d c) < 2 ^ 63"
  shows "column_sum d c = Num (of_nat (count_flagged (numeric d c)))"
proof -
  obtain col where col: "getitem d c = Inr col" "numbers col = Some (numeric d c)"
    using conforms_numeric [OF assms(1)] by blast
  show ?thesis
  proof (cases col)
    case (Numeric xs)
    then have "numeric d c = xs" using col(2) by simp
    then show ?thesis
      using assms(2) Numeric col(1) by (simp add: column_sum_def sum_list_flags)
  next
    case (Int64 ks)
    then have n: "numeric d c = map of_int ks" using col(2) by simp
    have flags: "\<forall>i \<in> set ks. i = 0 \<or> i = 1"
      using assms(2) unfolding n by auto
    have s: "sum_list ks = int (count_flagged (numeric d c))"
      using sum_list_int_flags [OF flags] n by simp
    have "count_flagged (numeric d c) < 2 ^ 63"
      using count_flagged_le [of "numeric d c"] assms(3) by linarith
    then have "int (count_flagged (numeric d c)) < 2 ^ 63"
      by (metis of_nat_less_iff of_nat_numeral of_nat_power)
    then have "int64_wrap (sum_list ks) = sum_list ks"
      using s by (intro int64_wrap_id) simp_all
    then show ?thesis
      using Int64 col(1) s by (simp add: column_sum_def)
  next
    case (Object ss)
    then show ?thesis using col(2) by simp
  qed
qed

lemma main_resolved:
  "parse_arguments (input_exists e) a0 = Inr a \<Longrightarrow>
   main e a0 = then_step (then_step (then_step (then_step
            (load e a) compose_chart) (save_figure e a)) (display a)) print_summary"
  by (simp add: main_def)

lemma load_Next:
  "read_csv e = Inr d \<Longrightarrow> nrows d \<noteq> 0 \<Longrightarrow>
   load e a = Next \<lparr> df = d, figure = [],
                     stdout = [Print (''Loading data from: '' @ input a), Loaded (nrows d)],
                     saved = [], shown = False \<rparr>"
  by (simp add: load_def)

lemma then_step_eq_Next:
  "then_step r f = Next s' \<longleftrightarrow> (\<exists>s. r = Next s \<and> f s = Next s')"
  by (cases r) simp_all

lemma sample_resolved:
  "parse_arguments True sample_args =
     Inr \<lparr> input = ''log.csv'', output = Some ''log.png'', dpi = 150, no_show = True,
           format = Some ''png'' \<rparr>"
  by (simp add: sample_args_def parse_arguments_def default_output_def infer_format_def
      with_suffix_def Path_def splitroot_def name_def suffix_def suffix_of_name_def str_path_def
      lower_def lower_char_def lstrip_def endswith_def Let_def)

lemma producer_shapes:
  "line_duration d = Inr l \<Longrightarrow> \<exists>m. l = Duration m"
  "line_interval d = Inr l \<Longrightarrow> \<exists>m. l = Update_interval m"
  "line_lux d = Inr l \<Longrightarrow> \<exists>lo hi. l = Lux_range lo hi"
  "line_brightness d = Inr l \<Longrightarrow> \<exists>lo hi. l = Brightness_range lo hi"
  "line_zones d = Inr l \<Longrightarrow> \<exists>zs. l = Print (''Zones visited: '' @ zs)"
  "line_zone_changes d = Inr l \<Longrightarrow> \<exists>v. l = Zone_changes v"
  "line_value_counts d = Inr l \<Longrightarrow> \<exists>vc. l = Value_counts vc"
  "line_average_error d = Inr l \<Longrightarrow> \<exists>m. l = Average_error m"
  "line_max_error d = Inr l \<Longrightarrow> \<exists>m. l = Max_error m"
  by (auto simp: line_duration_def line_interval_def line_lux_def line_brightness_def
      line_zones_def line_zone_changes_def line_value_counts_def line_average_error_def
      line_max_error_def fmt_max_def fmt_min_def and_then_def
      split: sum.splits column.splits option.splits)

lemma mark_zone_changes_not_isl:
  "map_of (columns d) ''timestamp'' = Some ts \<Longrightarrow> map_of (columns d) ''zone_changed'' = Some zc
   \<Longrightarrow> \<not> isl (mark_zone_changes d)"
  using mark_zone_changes_Inr [of d ts zc] by (auto simp: getitem_present)

lemma chart_present:
  assumes "list_all (\<lambda>c. map_of (columns d) c \<noteq> None) required_columns"
  shows "\<exists>arts. chart d = Inr arts"
proof -
  have "\<not> isl (chart d)"
    using assms unfolding required_columns_def chart_def plot_def
    by (auto simp: getitem_present and_then_not_isl scatter_each_not_isl
        mark_zone_changes_not_isl)
  then show ?thesis by (cases "chart d") simp_all
qed

lemma sample_table_chart: "\<exists>arts. chart sample_table = Inr arts"
  by (rule chart_present) (simp add: sample_table_def required_columns_def)

lemma sample_conforms: "conforms sample_table"
  by (simp add: conforms_def is_numeric_def is_object_def getitem_def sample_table_def)

lemma sample_run:
  "\<exists>s'. main sample_env sample_args = Next s'"
proof -
  obtain arts where c: "chart sample_table = Inr arts"
    using sample_table_chart by blast
  let ?a = "\<lparr> input = ''log.csv'', output = Some ''log.png'', dpi = 150, no_show = True,
             format = Some ''png'' \<rparr>"
  have p: "parse_arguments (input_exists sample_env) sample_args = Inr ?a"
    using sample_resolved by (simp add: sample_env_def)
  have l: "load sample_env ?a = Next \<lparr> df = sample_table, figure = [],
                     stdout = [Print (''Loading data from: '' @ input ?a), Loaded (nrows sample_table)],
                     saved = [], shown = False \<rparr>"
    by (rule load_Next) (simp_all add: sample_env_def sample_table_def)
  show ?thesis
    unfolding main_resolved [OF p] l
    by (simp add: compose_chart_def c save_figure_def sample_env_def display_def
        print_summary_conforms sample_conforms)
qed

lemma length_summary_report: "length (summary_report d) = 14"
  by (simp add: summary_report_def)

lemma wf_df_column_length:
  assumes "wf_df d" "getitem d c = Inr col"
  shows "length (cells col) = nrows d"
proof -
  have "map_of (columns d) c = Some col"
    using assms(2) by (auto simp: getitem_def split: option.splits)
  then have "(c, col) \<in> set (columns d)" by (rule map_of_SomeD)
  then show ?thesis using assms(1) by (auto simp: wf_df_def list_all_iff)
qed

lemma sample_wf: "wf_df sample_table"
  by (simp add: wf_df_def sample_table_def)

lemma sample_columns:
  "numeric sample_table ''timestamp'' = [0, 2]"
  "numeric sample_table ''zone_changed'' = [0, 1]"
  "strings sample_table ''zone'' = [''indoor'', ''outdoor'']"
  "nrows sample_table = 2"
  by (simp_all add: numeric_def strings_def getitem_def sample_table_def)

lemma sample_first_occurrences:
  "first_occurrences [''indoor'', ''outdoor''] = [''indoor'', ''outdoor'']"
  by (simp add: first_occurrences_def upt_conv_Cons)

section \<open>Properties of a run\<close>

text \<open>
  C3: once the arguments are resolved, a table without rows ends the run with the
  line \<open>Error: CSV file is empty\<close> and status 1, and a failure of \<open>read_csv\<close> ends
  it with the line \<open>Error loading CSV:\<close> followed by the error and status 1; the
  two lines differ whatever the error is.
\<close>

theorem load_failure_exits_1:
  assumes "parse_arguments (input_exists e) a0 = Inr a"
  shows "(\<forall>d. read_csv e = Inr d \<and> nrows d = 0 \<longrightarrow>
            main e a0 = Halt [Print (''Loading data from: '' @ input a),
                              Print ''Error: CSV file is empty''] (Exit 1))
       \<and> (\<forall>msg. read_csv e = Inl msg \<longrightarrow>
            main e a0 = Halt [Print (''Loading data from: '' @ input a),
                              Print (''Error loading CSV: '' @ msg)] (Exit 1)
            \<and> ''Error loading CSV: '' @ msg \<noteq> ''Error: CSV file is empty'')"
  using assms by (simp add: main_resolved load_def)

theorem load_failure_exits_1_witness:
  "main \<lparr> input_exists = True, read_csv = Inr \<lparr> nrows = 0, columns = [] \<rparr>, savefig = None,
          print_saved = None \<rparr>
     sample_args
   = Halt [Print ''Loading data from: log.csv'', Print ''Error: CSV file is empty''] (Exit 1)
   \<and> main \<lparr> input_exists = True, read_csv = Inl ''No columns to parse from file'',
            savefig = None,
          print_saved = None \<rparr> sample_args
   = Halt [Print ''Loading data from: log.csv'',
           Print ''Error loading CSV: No columns to parse from file''] (Exit 1)"
  using load_failure_exits_1
      [of "\<lparr> input_exists = True, read_csv = Inr \<lparr> nrows = 0, columns = [] \<rparr>,
             savefig = None,
          print_saved = None \<rparr>" sample_args
          "\<lparr> input = ''log.csv'', output = Some ''log.png'', dpi = 150, no_show = True,
             format = Some ''png'' \<rparr>"]
    load_failure_exits_1
      [of "\<lparr> input_exists = True, read_csv = Inl ''No columns to parse from file'',
             savefig = None,
          print_saved = None \<rparr>" sample_args
          "\<lparr> input = ''log.csv'', output = Some ''log.png'', dpi = 150, no_show = True,
             format = Some ''png'' \<rparr>"]
    sample_resolved
  by simp

text \<open>
  C10: in a run that reaches the save step, a failure of \<open>savefig\<close> ends the
  process with status 1 after the line \<open>Error saving plot:\<close>; the line of the
  interactive display is not printed, and no line that a print of the summary
  block produces is printed.
\<close>

theorem save_failure_ends_run:
  assumes "parse_arguments (input_exists e) a0 = Inr a"
    and "read_csv e = Inr d" and "nrows d \<noteq> 0" and "chart d = Inr arts"
    and "savefig e = Some msg"
  shows "main e a0 =
           Halt [Print (''Loading data from: '' @ input a), Loaded (nrows d),
                 Print (''Saving visualization to: '' @ str_opt (output a)),
                 Print (''Error saving plot: '' @ msg)] (Exit 1)
       \<and> Print ''Displaying plot (close window to continue)...'' \<notin> set (printed (main e a0))
       \<and> (\<forall>f \<in> set summary_prints. \<forall>l. f d = Inr l \<longrightarrow> l \<notin> set (printed (main e a0)))"
proof -
  have run: "main e a0 =
           Halt [Print (''Loading data from: '' @ input a), Loaded (nrows d),
                 Print (''Saving visualization to: '' @ str_opt (output a)),
                 Print (''Error saving plot: '' @ msg)] (Exit 1)"
    using assms by (simp add: main_resolved load_Next compose_chart_def save_figure_def)
  have "l \<notin> set (printed (main e a0))" if "f \<in> set summary_prints" "f d = Inr l" for f l
  proof -
    have "f = (\<lambda>d. Inr (Print (CHR 0x0A # replicate 60 CHR ''=''))) \<or>
          f = (\<lambda>d. Inr (Print ''SUMMARY STATISTICS'')) \<or>
          f = (\<lambda>d. Inr (Print (replicate 60 CHR ''=''))) \<or>
          f = (\<lambda>d. Inr (Total_iterations (nrows d))) \<or>
          f = line_duration \<or> f = line_interval \<or> f = line_lux \<or> f = line_brightness \<or>
          f = line_zones \<or> f = line_zone_changes \<or>
          f = (\<lambda>d. Inr (Print (CHR 0x0A # ''Step category distribution:''))) \<or>
          f = line_value_counts \<or> f = line_average_error \<or> f = line_max_error"
      using that(1) by (simp add: summary_prints_def)
    then have "l = Print (CHR 0x0A # replicate 60 CHR ''='') \<or> l = Print ''SUMMARY STATISTICS''
      \<or> l = Print (replicate 60 CHR ''='') \<or> l = Total_iterations (nrows d)
      \<or> (\<exists>m. l = Duration m) \<or> (\<exists>m. l = Update_interval m)
      \<or> (\<exists>lo hi. l = Lux_range lo hi) \<or> (\<exists>lo hi. l = Brightness_range lo hi)
      \<or> (\<exists>zs. l = Print (''Zones visited: '' @ zs)) \<or> (\<exists>v. l = Zone_changes v)
      \<or> l = Print (CHR 0x0A # ''Step category distribution:'')
      \<or> (\<exists>vc. l = Value_counts vc) \<or> (\<exists>m. l = Average_error m) \<or> (\<exists>m. l = Max_error m)"
      using that(2) producer_shapes [of d l] by (elim disjE) simp_all
    moreover have "replicate 60 CHR ''='' = CHR ''='' # replicate 59 CHR ''=''"
      by (simp add: eval_nat_numeral)
    ultimately show ?thesis
      by (elim disjE exE) (simp_all add: run)
  qed
  then show ?thesis using run by simp
qed

text \<open>The sample run with a failing \<open>savefig\<close>.\<close>

theorem save_failure_ends_run_witness:
  "main \<lparr> input_exists = True, read_csv = Inr sample_table,
          savefig = Some ''No space left on device'',
          print_saved = None \<rparr> sample_args
   = Halt [Print ''Loading data from: log.csv'', Loaded 2,
           Print ''Saving visualization to: log.png'',
           Print ''Error saving plot: No space left on device''] (Exit 1)"
proof -
  obtain arts where c: "chart sample_table = Inr arts"
    using sample_table_chart by blast
  have n: "nrows sample_table \<noteq> 0" "nrows sample_table = 2"
    by (simp_all add: sample_table_def)
  show ?thesis
    using save_failure_ends_run
      [of "\<lparr> input_exists = True, read_csv = Inr sample_table,
             savefig = Some ''No space left on device'',
          print_saved = None \<rparr>" sample_args
          "\<lparr> input = ''log.csv'', output = Some ''log.png'', dpi = 150, no_show = True,
             format = Some ''png'' \<rparr>" sample_table arts "''No space left on device''"]
      sample_resolved c n
    by (simp add: str_opt_def)
qed

text \<open>
  C7: the chart block, the save step, the display step and the summary block
  each leave the table of the state as it is, and a run that reaches its end
  holds the table that \<open>read_csv\<close> returned.
\<close>

theorem table_is_read_only:
  "(\<forall>s'. compose_chart s = Next s' \<longrightarrow> df s' = df s)
   \<and> (\<forall>s'. save_figure e a s = Next s' \<longrightarrow> df s' = df s)
   \<and> (\<forall>s'. display a s = Next s' \<longrightarrow> df s' = df s)
   \<and> (\<forall>s'. print_summary s = Next s' \<longrightarrow> df s' = df s)
   \<and> (\<forall>s'. main e a0 = Next s' \<longrightarrow> read_csv e = Inr (df s'))"
proof (intro conjI allI impI)
  fix s' assume "compose_chart s = Next s'"
  then show "df s' = df s"
    by (auto simp: compose_chart_def split: sum.splits)
next
  fix s' assume "save_figure e a s = Next s'"
  then show "df s' = df s"
    by (auto simp: save_figure_def Let_def split: option.splits)
next
  fix s' assume "display a s = Next s'"
  then show "df s' = df s"
    by (auto simp: display_def split: if_splits)
next
  fix s' assume "print_summary s = Next s'"
  then show "df s' = df s"
    by (simp add: print_summary_def print_all_df)
next
  fix s' assume m: "main e a0 = Next s'"
  then obtain a where a: "parse_arguments (input_exists e) a0 = Inr a"
    by (cases "parse_arguments (input_exists e) a0") (simp_all add: main_def)
  from m obtain s1 s2 s3 s4 where steps: "load e a = Next s1" "compose_chart s1 = Next s2"
      "save_figure e a s2 = Next s3" "display a s3 = Next s4" "print_summary s4 = Next s'"
    unfolding main_resolved [OF a] then_step_eq_Next by blast
  have "read_csv e = Inr (df s1)"
    using steps(1) by (auto simp: load_def Let_def split: sum.splits if_splits)
  moreover have "df s2 = df s1"
    using steps(2) by (auto simp: compose_chart_def split: sum.splits)
  moreover have "df s3 = df s2"
    using steps(3) by (auto simp: save_figure_def Let_def split: option.splits)
  moreover have "df s4 = df s3"
    using steps(4) by (auto simp: display_def split: if_splits)
  moreover have "df s' = df s4"
    using steps(5) by (simp add: print_summary_def print_all_df)
  ultimately show "read_csv e = Inr (df s')" by simp
qed

text \<open>The sample run reaches its end with the sample table.\<close>

theorem table_is_read_only_witness:
  "\<exists>s'. main sample_env sample_args = Next s' \<and> df s' = sample_table"
proof -
  obtain s' where s': "main sample_env sample_args = Next s'"
    using sample_run by blast
  then have "read_csv sample_env = Inr (df s')"
    using table_is_read_only [of _ sample_env _ sample_args] by blast
  then show ?thesis using s' by (simp add: sample_env_def)
qed

text \<open>
  C8: two states of the script with the same table, whatever their arguments,
  figure, earlier output and saved files, get the same lines from the summary
  block and end in the same way.
\<close>

theorem summary_depends_on_table_only:
  assumes "df s1 = df s2"
  shows "\<exists>ls. (print_summary s1 = Next (s1\<lparr> stdout := stdout s1 @ ls \<rparr>) \<and>
               print_summary s2 = Next (s2\<lparr> stdout := stdout s2 @ ls \<rparr>))
            \<or> (\<exists>err. print_summary s1 = Halt (stdout s1 @ ls) (Uncaught err) \<and>
                      print_summary s2 = Halt (stdout s2 @ ls) (Uncaught err))"
  unfolding print_summary_def using assms by (rule print_all_df_only)

text \<open>Two states with the sample table and different histories.\<close>

theorem summary_depends_on_table_only_witness:
  "\<exists>ls. print_summary \<lparr> df = sample_table, figure = [], stdout = [Loaded 2], saved = [],
                          shown = False \<rparr>
          = Next \<lparr> df = sample_table, figure = [], stdout = [Loaded 2] @ ls, saved = [],
                   shown = False \<rparr>
      \<and> print_summary \<lparr> df = sample_table, figure = [Axhline ''ax2'' 0], stdout = [],
                          saved = [(Some ''log.pdf'', Some ''pdf'', 300)], shown = True \<rparr>
          = Next \<lparr> df = sample_table, figure = [Axhline ''ax2'' 0], stdout = [] @ ls,
                   saved = [(Some ''log.pdf'', Some ''pdf'', 300)], shown = True \<rparr>"
proof -
  let ?s1 = "\<lparr> df = sample_table, figure = [], stdout = [Loaded 2], saved = [],
              shown = False \<rparr>"
  let ?s2 = "\<lparr> df = sample_table, figure = [Axhline ''ax2'' 0], stdout = [],
              saved = [(Some ''log.pdf'', Some ''pdf'', 300)], shown = True \<rparr>"
  have ok: "print_summary ?s1 = Next (?s1\<lparr> stdout := stdout ?s1 @ summary_report sample_table \<rparr>)"
    using print_summary_conforms [of ?s1] sample_conforms by simp
  obtain ls where
    "(print_summary ?s1 = Next (?s1\<lparr> stdout := stdout ?s1 @ ls \<rparr>) \<and>
      print_summary ?s2 = Next (?s2\<lparr> stdout := stdout ?s2 @ ls \<rparr>))
     \<or> (\<exists>err. print_summary ?s1 = Halt (stdout ?s1 @ ls) (Uncaught err) \<and>
               print_summary ?s2 = Halt (stdout ?s2 @ ls) (Uncaught err))"
    using summary_depends_on_table_only [of ?s1 ?s2] by auto
  then have "print_summary ?s1 = Next (?s1\<lparr> stdout := stdout ?s1 @ ls \<rparr>) \<and>
      print_summary ?s2 = Next (?s2\<lparr> stdout := stdout ?s2 @ ls \<rparr>)"
    using ok by auto
  then show ?thesis by auto
qed

text \<open>
  C1, as the code has it.  The loader does not look at the columns.  A table with
  at least one row that lacks a required column is loaded, the line
  \<open>Loaded n data points\<close> is printed, and the run ends in the chart block with an
  uncaught \<open>KeyError\<close> for the first required column that is missing; nothing is
  saved and no summary is printed.
\<close>

theorem missing_column_fails_in_chart:
  assumes "parse_arguments (input_exists e) a0 = Inr a"
    and "read_csv e = Inr d" and "nrows d \<noteq> 0"
    and "find (\<lambda>c. map_of (columns d) c = None) required_columns = Some c"
  shows "load e a = Next \<lparr> df = d, figure = [],
                     stdout = [Print (''Loading data from: '' @ input a), Loaded (nrows d)],
                     saved = [], shown = False \<rparr>
       \<and> main e a0 = Halt [Print (''Loading data from: '' @ input a), Loaded (nrows d)]
                         (Uncaught (KeyError c))"
  using assms
  by (simp add: main_resolved load_Next compose_chart_def chart_missing)

text \<open>A table with the columns \<open>timestamp\<close> and \<open>lux\<close> only.\<close>

theorem missing_column_fails_in_chart_witness:
  "main \<lparr> input_exists = True,
          read_csv = Inr \<lparr> nrows = 1, columns = [(''timestamp'', Numeric [0]),
                                                  (''lux'', Numeric [10])] \<rparr>,
          savefig = None,
          print_saved = None \<rparr> sample_args
   = Halt [Print ''Loading data from: log.csv'', Loaded 1]
       (Uncaught (KeyError ''target_brightness''))"
  using missing_column_fails_in_chart
      [of "\<lparr> input_exists = True,
             read_csv = Inr \<lparr> nrows = 1, columns = [(''timestamp'', Numeric [0]),
                                                     (''lux'', Numeric [10])] \<rparr>,
             savefig = None,
          print_saved = None \<rparr>" sample_args
          "\<lparr> input = ''log.csv'', output = Some ''log.png'', dpi = 150, no_show = True,
             format = Some ''png'' \<rparr>"
          "\<lparr> nrows = 1, columns = [(''timestamp'', Numeric [0]), (''lux'', Numeric [10])] \<rparr>"
          "''target_brightness''"]
    sample_resolved
  by (simp add: required_columns_def)

text \<open>
  C1 as stated has the loader detect the absence.  For a table with the single
  column \<open>timestamp\<close> the load step succeeds, and the run ends later, at the
  first access to \<open>lux\<close>.
\<close>

theorem load_accepts_missing_column_counterexample:
  "load \<lparr> input_exists = True,
          read_csv = Inr \<lparr> nrows = 1, columns = [(''timestamp'', Numeric [0])] \<rparr>,
          savefig = None,
          print_saved = None \<rparr>
        \<lparr> input = ''log.csv'', output = Some ''log.png'', dpi = 150, no_show = True,
          format = Some ''png'' \<rparr>
   = Next \<lparr> df = \<lparr> nrows = 1, columns = [(''timestamp'', Numeric [0])] \<rparr>, figure = [],
            stdout = [Print ''Loading data from: log.csv'', Loaded 1], saved = [],
            shown = False \<rparr>
   \<and> main \<lparr> input_exists = True,
          read_csv = Inr \<lparr> nrows = 1, columns = [(''timestamp'', Numeric [0])] \<rparr>,
          savefig = None,
          print_saved = None \<rparr>
        \<lparr> input = ''log.csv'', output = Some ''log.png'', dpi = 150, no_show = True,
          format = None \<rparr>
   = Halt [Print ''Loading data from: log.csv'', Loaded 1] (Uncaught (KeyError ''lux''))"
  by (simp add: load_def main_def parse_arguments_def default_output_def infer_format_def
      compose_chart_def chart_def plot_def getitem_def Path_def name_def suffix_def
      suffix_of_name_def lower_def lower_char_def lstrip_def Let_def)

text \<open>
  C4: for a table that conforms, whose \<open>zone_changed\<close> values are the flags 0
  and 1 of the data model and which has fewer than \<open>2^63\<close> rows, the tenth line
  of the summary carries the number of rows whose \<open>zone_changed\<close> is 1.
\<close>

theorem zone_changes_line:
  assumes "conforms (df s)"
    and "\<forall>x \<in> set (numeric (df s) ''zone_changed''). x = 0 \<or> x = 1"
    and "length (numeric (df s) ''zone_changed'') < 2 ^ 63"
  shows "\<exists>ls. print_summary s = Next (s\<lparr> stdout := stdout s @ ls \<rparr>) \<and> length ls = 14 \<and>
           ls ! 9 = Zone_changes
                      (Num (of_nat (count_flagged (numeric (df s) ''zone_changed''))))"
proof -
  have "is_numeric (df s) ''zone_changed''"
    using assms(1) by (simp add: conforms_def)
  then have "column_sum (df s) ''zone_changed''
      = Num (of_nat (count_flagged (numeric (df s) ''zone_changed'')))"
    using assms(2,3) by (rule column_sum_flags)
  then have "summary_report (df s) ! 9
      = Zone_changes (Num (of_nat (count_flagged (numeric (df s) ''zone_changed''))))"
    by (simp add: summary_report_def)
  then show ?thesis
    using print_summary_conforms [OF assms(1)] length_summary_report [of "df s"]
    by auto
qed

text \<open>The sample table has one zone change.\<close>

theorem zone_changes_line_witness:
  "\<exists>ls. print_summary \<lparr> df = sample_table, figure = [], stdout = [], saved = [],
                          shown = False \<rparr>
          = Next \<lparr> df = sample_table, figure = [], stdout = ls, saved = [], shown = False \<rparr>
        \<and> ls ! 9 = Zone_changes (Num 1)"
  using zone_changes_line
      [of "\<lparr> df = sample_table, figure = [], stdout = [], saved = [], shown = False \<rparr>"]
    sample_conforms
  by (auto simp: sample_columns count_flagged_def)

text \<open>
  C5: for a table that conforms, the ninth line of the summary lists the values
  of the column \<open>zone\<close> at their first occurrences, joined by a comma and a
  space: each value of the column once, in encounter order.
\<close>

theorem zones_visited_line:
  assumes "conforms (df s)"
  shows "\<exists>ls. print_summary s = Next (s\<lparr> stdout := stdout s @ ls \<rparr>) \<and> length ls = 14 \<and>
           ls ! 8 = Print (''Zones visited: '' @
                           join '', '' (first_occurrences (strings (df s) ''zone''))) \<and>
           distinct (first_occurrences (strings (df s) ''zone'')) \<and>
           set (first_occurrences (strings (df s) ''zone'')) = set (strings (df s) ''zone'')"
proof -
  let ?zs = "strings (df s) ''zone''"
  have "summary_report (df s) ! 8 = Print (''Zones visited: '' @ join '', '' (first_occurrences ?zs))"
    by (simp add: summary_report_def unique_first_occurrences)
  moreover have "distinct (first_occurrences ?zs)" "set (first_occurrences ?zs) = set ?zs"
    using distinct_unique_from [of "[]" ?zs] set_unique_from [of "[]" ?zs]
    by (simp_all add: unique_first_occurrences [symmetric] unique_def)
  ultimately show ?thesis
    using print_summary_conforms [OF assms] length_summary_report [of "df s"]
    by auto
qed

text \<open>The zones of the sample table.\<close>

theorem zones_visited_line_witness:
  "\<exists>ls. print_summary \<lparr> df = sample_table, figure = [], stdout = [], saved = [],
                          shown = False \<rparr>
          = Next \<lparr> df = sample_table, figure = [], stdout = ls, saved = [], shown = False \<rparr>
        \<and> ls ! 8 = Print ''Zones visited: indoor, outdoor''"
  using zones_visited_line
      [of "\<lparr> df = sample_table, figure = [], stdout = [], saved = [], shown = False \<rparr>"]
    sample_conforms
  by (auto simp: sample_columns sample_first_occurrences)

text \<open>
  C6: for a well-formed table that conforms and has at least one row, the fifth
  line of the summary carries the maximum of the column \<open>timestamp\<close> and the
  sixth line that maximum divided by the number of rows.
\<close>

theorem duration_and_interval_lines:
  assumes "conforms (df s)" and "wf_df (df s)" and "nrows (df s) \<noteq> 0"
  shows "\<exists>ls. print_summary s = Next (s\<lparr> stdout := stdout s @ ls \<rparr>) \<and> length ls = 14 \<and>
           ls ! 4 = Duration (Some (Max (set (numeric (df s) ''timestamp'')))) \<and>
           ls ! 5 = Update_interval
                      (Some (Max (set (numeric (df s) ''timestamp'')) / of_nat (nrows (df s))))"
proof -
  let ?ts = "numeric (df s) ''timestamp''"
  have "is_numeric (df s) ''timestamp''"
    using assms(1) by (simp add: conforms_def)
  then obtain col where col: "getitem (df s) ''timestamp'' = Inr col" "numbers col = Some ?ts"
    using conforms_numeric by blast
  have "length ?ts = length (cells col)"
    using col(2) by (rule length_numbers)
  then have "length ?ts = nrows (df s)"
    using wf_df_column_length [OF assms(2) col(1)] by simp
  then have "?ts \<noteq> []" using assms(3) by auto
  then have m: "series_max ?ts = Some (Max (set ?ts))" by (rule series_max_Max)
  have "summary_report (df s) ! 4 = Duration (Some (Max (set ?ts)))"
       "summary_report (df s) ! 5 = Update_interval (Some (Max (set ?ts) / of_nat (nrows (df s))))"
    by (simp_all add: summary_report_def m)
  then show ?thesis
    using print_summary_conforms [OF assms(1)] length_summary_report [of "df s"]
    by auto
qed

text \<open>The sample table: two rows, the last at 2 seconds.\<close>

theorem duration_and_interval_lines_witness:
  "\<exists>ls. print_summary \<lparr> df = sample_table, figure = [], stdout = [], saved = [],
                          shown = False \<rparr>
          = Next \<lparr> df = sample_table, figure = [], stdout = ls, saved = [], shown = False \<rparr>
        \<and> ls ! 4 = Duration (Some 2) \<and> ls ! 5 = Update_interval (Some 1)"
  using duration_and_interval_lines
      [of "\<lparr> df = sample_table, figure = [], stdout = [], saved = [], shown = False \<rparr>"]
    sample_conforms sample_wf
  by (auto simp: sample_columns)

end
